theory Spec2Isabelle
  imports Complex_Main
begin

section \<open>The STHEREO dataset module (sthereo.py)\<close>

text \<open>
  A shallow embedding of \<^verbatim>\<open>sthereo.py\<close>: the manifest handler \<^verbatim>\<open>JsonHandler\<close>, the
  evaluation dataset \<^verbatim>\<open>WholeDatasetFromJson\<close> and the training dataset
  \<^verbatim>\<open>QueryDatasetFromJson\<close> with its hard negative mining in \<^verbatim>\<open>__getitem__\<close>.

  Conventions of the embedding:
  \<^item> Python floats are real numbers; the distance thresholds and the margin of a
    dataset are taken non-negative where their square root is read (Python's
    \<^verbatim>\<open>x**0.5\<close> of a negative float is a complex number, which this model does not cover);
  \<^item> counts and array indices are natural numbers;
  \<^item> every exception of the source is a value \<open>Inl e\<close> of \<open>error + 'a\<close>;
  \<^item> the mutation of \<^verbatim>\<open>self\<close> is explicit: a method returns the dataset it leaves behind;
  \<^item> the random draw of \<^verbatim>\<open>np.random.choice\<close> reads a function \<open>rnd\<close>, the \<open>j\<close>-th draw
    being \<open>rnd j\<close>;
  \<^item> the library calls (scikit-learn, numpy, h5py, os.path, torch) are modelled by what
    they return and by the errors they raise on the inputs this module gives them.

  Left out: the check of \<^verbatim>\<open>root_dir\<close> when the module is imported, the reading and parsing
  of the manifest file below \<^verbatim>\<open>json.load\<close>, the writing of \<^verbatim>\<open>serialize\<close>, the decoding of
  an image by PIL, and \<^verbatim>\<open>collate_fn\<close>.
\<close>

datatype error =
  ValueError | IndexError | TypeError | AttributeError | FileNotFoundError | RuntimeError

definition and_then :: "error + 'a \<Rightarrow> ('a \<Rightarrow> error + 'b) \<Rightarrow> error + 'b" where
  "and_then r f = (case r of Inl e \<Rightarrow> Inl e | Inr x \<Rightarrow> f x)"

definition nth_err :: "'a list \<Rightarrow> nat \<Rightarrow> error + 'a" where
  \<comment> \<open>\<^verbatim>\<open>xs[i]\<close> for a non-negative index.\<close>
  "nth_err xs i = (if i < length xs then Inr (xs ! i) else Inl IndexError)"

subsection \<open>JsonHandler\<close>

text \<open>
  The value \<^verbatim>\<open>json.load\<close> returns. A JSON object is a dict, kept in insertion order as
  a list of pairs.
\<close>

datatype json =
  JNull | JBool bool | JInt int | JFloat real | JStr string
  | JArr "json list" | JObj "(string \<times> json) list"











subsection \<open>The manifest as the datasets read it\<close>

type_synonym vec = "real list"

record dbStruct =
  whichSet :: string
  dataset :: string
  dbImage :: "string list"
  utmDb :: "vec list"
  qImage :: "string list"
  utmQ :: "vec list"
  numDb :: nat
  numQ :: nat
  posDistThr :: real
  nonTrivPosDistSqThr :: real

subsection \<open>sklearn.neighbors.NearestNeighbors\<close>

definition euclidean :: "vec \<Rightarrow> vec \<Rightarrow> real" where
  "euclidean x y = sqrt (sum_list (map (\<lambda>(a, b). (a - b)\<^sup>2) (zip x y)))"

definition check_array :: "vec list \<Rightarrow> bool" where
  \<comment> \<open>The input validation of an estimator: at least one row, at least one column,
      all rows of one length.\<close>
  "check_array X \<longleftrightarrow>
     (case X of [] \<Rightarrow> False | r # rs \<Rightarrow> r \<noteq> [] \<and> list_all (\<lambda>s. length s = length r) rs)"

definition fit :: "vec list \<Rightarrow> error + vec list" where
  \<comment> \<open>\<^verbatim>\<open>knn.fit(X)\<close>; the fitted estimator is the table of its rows.\<close>
  "fit X = (if check_array X then Inr X else Inl ValueError)"

definition check_query :: "vec list \<Rightarrow> vec list \<Rightarrow> bool" where
  "check_query F X \<longleftrightarrow> check_array X \<and> length (hd X) = length (hd F)"

definition radius_neighbors :: "vec list \<Rightarrow> vec list \<Rightarrow> real \<Rightarrow> error + nat list list" where
  \<comment> \<open>\<^verbatim>\<open>knn.radius_neighbors(X, radius, return_distance=False)\<close> on the estimator fitted to \<open>F\<close>.\<close>
  "radius_neighbors F X radius =
     (if check_query F X
      then Inr (map (\<lambda>q. filter (\<lambda>j. euclidean q (F ! j) \<le> radius) [0..<length F]) X)
      else Inl ValueError)"

definition kneighbors :: "vec list \<Rightarrow> vec \<Rightarrow> nat \<Rightarrow> error + (real list \<times> nat list)" where
  \<comment> \<open>\<^verbatim>\<open>knn.kneighbors(q.reshape(1,-1), k)\<close>, both results reshaped to one row. Rows at
      equal distance come in index order.\<close>
  "kneighbors F q k =
     (if k = 0 \<or> \<not> check_query F [q] \<or> length F < k then Inl ValueError
      else let nn = take k (sort_key (\<lambda>j. euclidean q (F ! j)) [0..<length F])
           in Inr (map (\<lambda>j. euclidean q (F ! j)) nn, nn))"

subsection \<open>numpy, h5py, os.path, torch\<close>

definition arange :: "nat \<Rightarrow> nat list" where
  "arange n = [0..<n]"

definition setdiff1d :: "nat list \<Rightarrow> nat list \<Rightarrow> nat list" where
  \<comment> \<open>With \<^verbatim>\<open>assume_unique=True\<close>: the elements of the first array that are not in the
      second, in the order of the first.\<close>
  "setdiff1d ar1 ar2 = filter (\<lambda>x. x \<notin> set ar2) ar1"

definition unique :: "nat list \<Rightarrow> nat list" where
  "unique xs = sort (remdups xs)"

definition choice :: "nat list \<Rightarrow> nat \<Rightarrow> (nat \<Rightarrow> nat) \<Rightarrow> error + nat list" where
  \<comment> \<open>\<^verbatim>\<open>np.random.choice(a, size)\<close>, with replacement.\<close>
  "choice a n rnd =
     (if a = [] \<and> 0 < n then Inl ValueError
      else Inr (map (\<lambda>j. a ! (rnd j mod length a)) [0..<n]))"

definition mask_select :: "'a list \<Rightarrow> bool list \<Rightarrow> 'a list" where
  \<comment> \<open>\<^verbatim>\<open>xs[mask]\<close> for a boolean mask of the length of \<open>xs\<close>.\<close>
  "mask_select xs msk = map fst (filter snd (zip xs msk))"

definition np_sum :: "bool list \<Rightarrow> nat" where
  "np_sum msk = length (filter id msk)"

definition h5_row :: "vec list \<Rightarrow> nat \<Rightarrow> error + vec" where
  "h5_row h5feat i = nth_err h5feat i"

definition h5_rows :: "vec list \<Rightarrow> nat list \<Rightarrow> error + vec list" where
  \<comment> \<open>\<^verbatim>\<open>h5feat[list]\<close>: h5py wants the list strictly increasing and in range.\<close>
  "h5_rows h5feat idxs =
     (if \<not> sorted_wrt (<) idxs then Inl TypeError
      else if \<not> list_all (\<lambda>i. i < length h5feat) idxs then Inl IndexError
      else Inr (map (\<lambda>i. h5feat ! i) idxs))"

definition root_dir :: string where
  "root_dir = ''/mydata/dataset/STHEREO''"

definition img_folder :: string where
  "img_folder = ''rgb_left''"

fun split_colon :: "string \<Rightarrow> string list" where
  "split_colon [] = [[]]"
| "split_colon (c # cs) =
     (if c = CHR '':'' then [] # split_colon cs
      else (c # hd (split_colon cs)) # tl (split_colon cs))"

definition join2 :: "string \<Rightarrow> string \<Rightarrow> string" where
  "join2 a b =
     (if b \<noteq> [] \<and> hd b = CHR ''/'' then b
      else if a = [] \<or> last a = CHR ''/'' then a @ b
      else a @ ''/'' @ b)"

definition join :: "string \<Rightarrow> string list \<Rightarrow> string" where
  "join a ps = foldl join2 a ps"

definition image_path :: "string \<Rightarrow> error + string" where
  \<comment> \<open>\<^verbatim>\<open>join(root_dir, img.split(':')[0], img_folder, img.split(':')[1]+'.png')\<close>\<close>
  "image_path img =
     (let parts = split_colon img
      in if length parts < 2 then Inl IndexError
         else Inr (join root_dir [parts ! 0, img_folder, parts ! 1 @ ''.png'']))"

definition Image_open :: "(string \<Rightarrow> 'img option) \<Rightarrow> string \<Rightarrow> error + 'img" where
  \<comment> \<open>The file system is the partial function \<open>fs\<close> from paths to images.\<close>
  "Image_open fs path = (case fs path of None \<Rightarrow> Inl FileNotFoundError | Some im \<Rightarrow> Inr im)"

definition transform :: "('img \<Rightarrow> 'img) option \<Rightarrow> 'img \<Rightarrow> 'img" where
  "transform t im = (case t of None \<Rightarrow> im | Some f \<Rightarrow> f im)"

definition torch_stack :: "'a list \<Rightarrow> error + 'a list" where
  "torch_stack xs = (if xs = [] then Inl RuntimeError else Inr xs)"

subsection \<open>WholeDatasetFromJson\<close>

record whole_dataset =
  w_dbStruct :: dbStruct
  images :: "string list"
  positives :: "nat list list option"
  distances :: "real list list option"

fun image_paths :: "string list \<Rightarrow> error + string list" where
  "image_paths [] = Inr []"
| "image_paths (img # imgs) =
     and_then (image_path img) (\<lambda>p. and_then (image_paths imgs) (\<lambda>ps. Inr (p # ps)))"

definition WholeDatasetFromJson_init :: "dbStruct \<Rightarrow> bool \<Rightarrow> error + whole_dataset" where
  "WholeDatasetFromJson_init dbs onlyDB =
     and_then (image_paths (dbImage dbs)) (\<lambda>ims.
     and_then (if \<not> onlyDB then image_paths (qImage dbs) else Inr []) (\<lambda>qims.
       Inr \<lparr>w_dbStruct = dbs, images = ims @ qims, positives = None, distances = None\<rparr>))"

definition radius_neighbors_dist ::
  "vec list \<Rightarrow> vec list \<Rightarrow> real \<Rightarrow> error + (real list list \<times> nat list list)" where
  \<comment> \<open>\<^verbatim>\<open>knn.radius_neighbors(X, radius)\<close>, distances and indices.\<close>
  "radius_neighbors_dist F X radius =
     and_then (radius_neighbors F X radius) (\<lambda>ind.
       Inr (map (\<lambda>(q, js). map (\<lambda>j. euclidean q (F ! j)) js) (zip X ind), ind))"

definition getPositives :: "whole_dataset \<Rightarrow> error + (nat list list \<times> whole_dataset \<times> nat)" where
  \<comment> \<open>Returns \<^verbatim>\<open>self.positives\<close>, the dataset after the call, and (for the claim about
      memoisation) how many radius searches the call made.\<close>
  "getPositives self =
     (case positives self of
        None \<Rightarrow>
          and_then (fit (utmDb (w_dbStruct self))) (\<lambda>knn.
          and_then (radius_neighbors_dist knn (utmQ (w_dbStruct self))
                      (posDistThr (w_dbStruct self))) (\<lambda>(dist, pos).
            Inr (pos, self\<lparr>positives := Some pos, distances := Some dist\<rparr>, 1)))
      | Some pos \<Rightarrow> Inr (pos, self, 0))"

subsection \<open>QueryDatasetFromJson\<close>

record 'img query_dataset =
  input_transform :: "('img \<Rightarrow> 'img) option"
  margin :: real
  q_dbStruct :: dbStruct
  q_whichSet :: string
  q_dataset :: string
  nNegSample :: nat
  nNeg :: nat
  nontrivial_positives :: "nat list list"
  queries :: "nat list"
  potential_negatives :: "nat list list"
  cache :: "vec list option"
  negCache :: "nat list list"

definition QueryDatasetFromJson_init ::
  "dbStruct \<Rightarrow> nat \<Rightarrow> nat \<Rightarrow> real \<Rightarrow> ('img \<Rightarrow> 'img) option \<Rightarrow> error + 'img query_dataset" where
  "QueryDatasetFromJson_init dbs nNegSample' nNeg' margin' input_transform' =
     and_then (fit (utmDb dbs)) (\<lambda>knn.
     and_then (radius_neighbors knn (utmQ dbs) (sqrt (nonTrivPosDistSqThr dbs))) (\<lambda>ntp.
     let ntp = map sort ntp;
         qs = filter (\<lambda>q. 0 < length (ntp ! q)) [0..<length ntp]
     in and_then (radius_neighbors knn (utmQ dbs) (posDistThr dbs)) (\<lambda>potential_positives.
       Inr \<lparr>input_transform = input_transform', margin = margin', q_dbStruct = dbs,
            q_whichSet = whichSet dbs, q_dataset = dataset dbs,
            nNegSample = nNegSample', nNeg = nNeg',
            nontrivial_positives = ntp, queries = qs,
            potential_negatives =
              map (\<lambda>pos. setdiff1d (arange (numDb dbs)) pos) potential_positives,
            cache = None,
            negCache = replicate (numQ dbs) []\<rparr>)))"

text \<open>
  \<^verbatim>\<open>__getitem__\<close>, lines 199 to 214: the query, its feature, the best positive and the
  pool of negative candidates.
\<close>

record sampled =
  index :: nat
  qFeat :: vec
  dPos :: real
  posIndex :: nat
  negSample :: "nat list"

definition open_cache :: "'img query_dataset \<Rightarrow> error + vec list" where
  \<comment> \<open>\<^verbatim>\<open>h5py.File(self.cache, mode='r')\<close> and its table \<^verbatim>\<open>features\<close>.\<close>
  "open_cache self = (case cache self of None \<Rightarrow> Inl TypeError | Some h5feat \<Rightarrow> Inr h5feat)"

definition mine_sample :: "'img query_dataset \<Rightarrow> (nat \<Rightarrow> nat) \<Rightarrow> nat \<Rightarrow> error + sampled" where
  "mine_sample self rnd i =
     and_then (nth_err (queries self) i) (\<lambda>index.
     and_then (open_cache self) (\<lambda>h5feat.
     and_then (h5_row h5feat (index + numDb (q_dbStruct self))) (\<lambda>qFeat.
     and_then (nth_err (nontrivial_positives self) index) (\<lambda>ntp.
     and_then (h5_rows h5feat ntp) (\<lambda>posFeat.
     and_then (fit posFeat) (\<lambda>knn.
     and_then (kneighbors knn qFeat 1) (\<lambda>(dPos, posNN).
     and_then (nth_err (potential_negatives self) index) (\<lambda>pn.
     and_then (choice pn (nNegSample self) rnd) (\<lambda>negSample.
     and_then (nth_err (negCache self) index) (\<lambda>prev.
       Inr \<lparr>index = index, qFeat = qFeat, dPos = hd dPos, posIndex = ntp ! hd posNN,
            negSample = unique (prev @ negSample)\<rparr>))))))))))"

text \<open>Lines 216 to 223: the candidates ranked by their distance to the query.\<close>

definition rank_candidates ::
  "'img query_dataset \<Rightarrow> sampled \<Rightarrow> error + (real list \<times> nat list)" where
  "rank_candidates self s =
     and_then (open_cache self) (\<lambda>h5feat.
     and_then (h5_rows h5feat (negSample s)) (\<lambda>negFeat.
     and_then (fit negFeat) (\<lambda>knn.
       kneighbors knn (qFeat s) (nNeg self * 10))))"

text \<open>Lines 226 to 233: the margin test and the choice of the negatives.\<close>

definition violatingNeg :: "real list \<Rightarrow> real \<Rightarrow> real \<Rightarrow> bool list" where
  "violatingNeg dNeg dPos' margin' = map (\<lambda>d. d < dPos' + sqrt margin') dNeg"

definition select_negatives ::
  "'img query_dataset \<Rightarrow> sampled \<Rightarrow> real list \<times> nat list \<Rightarrow> nat list" where
  "select_negatives self s r =
     (let negNN = take (nNeg self) (mask_select (snd r) (violatingNeg (fst r) (dPos s) (margin self)))
      in map (\<lambda>j. negSample s ! j) negNN)"

text \<open>Lines 236 to 255: the images of the example.\<close>

definition load_image :: "(string \<Rightarrow> 'img option) \<Rightarrow> string list \<Rightarrow> nat \<Rightarrow> error + 'img" where
  "load_image fs imgs i =
     and_then (nth_err imgs i) (\<lambda>img.
     and_then (image_path img) (\<lambda>path. Image_open fs path))"

fun load_negatives ::
  "(string \<Rightarrow> 'img option) \<Rightarrow> ('img \<Rightarrow> 'img) option \<Rightarrow> string list \<Rightarrow> nat list \<Rightarrow> error + 'img list" where
  "load_negatives fs t imgs [] = Inr []"
| "load_negatives fs t imgs (negIndex # rest) =
     and_then (load_image fs imgs negIndex) (\<lambda>negative.
     and_then (load_negatives fs t imgs rest) (\<lambda>negatives.
       Inr (transform t negative # negatives)))"

type_synonym 'img example = "'img \<times> 'img \<times> 'img list \<times> nat list"

definition load_example ::
  "(string \<Rightarrow> 'img option) \<Rightarrow> 'img query_dataset \<Rightarrow> sampled \<Rightarrow> nat list \<Rightarrow> error + 'img example" where
  "load_example fs self s negIndices =
     and_then (load_image fs (qImage (q_dbStruct self)) (index s)) (\<lambda>query.
     and_then (load_image fs (dbImage (q_dbStruct self)) (posIndex s)) (\<lambda>positive.
     and_then (load_negatives fs (input_transform self) (dbImage (q_dbStruct self)) negIndices)
       (\<lambda>negatives.
     and_then (torch_stack negatives) (\<lambda>negatives.
       Inr (transform (input_transform self) query, transform (input_transform self) positive,
            negatives, [index s, posIndex s] @ negIndices)))))"

definition getitem ::
  "(string \<Rightarrow> 'img option) \<Rightarrow> (nat \<Rightarrow> nat) \<Rightarrow> 'img query_dataset \<Rightarrow> nat
     \<Rightarrow> (error + 'img example option) \<times> 'img query_dataset" where
  \<comment> \<open>The outcome (an exception, \<^verbatim>\<open>None\<close> or the example) and the dataset after the call.\<close>
  "getitem fs rnd self i =
     (case mine_sample self rnd i of
        Inl e \<Rightarrow> (Inl e, self)
      | Inr s \<Rightarrow>
         (case rank_candidates self s of
            Inl e \<Rightarrow> (Inl e, self)
          | Inr r \<Rightarrow>
             if np_sum (violatingNeg (fst r) (dPos s) (margin self)) < 1 then (Inr None, self)
             else
               let negIndices = select_negatives self s r;
                   self' = self\<lparr>negCache := (negCache self)[index s := negIndices]\<rparr>
               in (case load_example fs self' s negIndices of
                     Inl e \<Rightarrow> (Inl e, self')
                   | Inr ex \<Rightarrow> (Inr (Some ex), self'))))"

definition len :: "'img query_dataset \<Rightarrow> nat" where
  "len self = length (queries self)"

subsection \<open>The positive neighbourhood of the specification\<close>

text \<open>
  The database indices within \<open>positiveDistanceThreshold\<close> of the coordinate of query \<open>q\<close>.
\<close>

definition positiveNeighborhood :: "dbStruct \<Rightarrow> nat \<Rightarrow> nat set" where
  "positiveNeighborhood dbs q =
     set (filter (\<lambda>j. euclidean (utmQ dbs ! q) (utmDb dbs ! j) \<le> posDistThr dbs)
            [0..<length (utmDb dbs)])"

subsection \<open>Concrete datasets\<close>

text \<open>
  A manifest of eleven database images and one query on a line, with a feature table of
  one-dimensional features: the rows \<open>0\<close> to \<open>10\<close> are the database images, row \<open>11\<close> is
  the query.
\<close>

definition ex_db :: dbStruct where
  "ex_db = \<lparr>whichSet = ''train'', dataset = ''sthereo'',
     dbImage = [''s:0'', ''s:1'', ''s:2'', ''s:3'', ''s:4'', ''s:5'', ''s:6'', ''s:7'', ''s:8'',
                ''s:9'', ''s:10''],
     utmDb = [[0], [10], [20], [30], [40], [50], [60], [70], [80], [90], [100]],
     qImage = [''q:0''], utmQ = [[0]], numDb = 11, numQ = 1,
     posDistThr = 5, nonTrivPosDistSqThr = 4\<rparr>"

definition ex_feat :: "vec list" where
  "ex_feat = [[1], [5], [3/2], [7], [1/2], [9], [10], [11], [12], [13], [14], [0]]"

definition ex_far :: "vec list" where
  "ex_far = [[1], [5], [3], [7], [2], [9], [10], [11], [12], [13], [14], [0]]"

definition ex_ds :: "string query_dataset" where
  "ex_ds = \<lparr>input_transform = None, margin = 1, q_dbStruct = ex_db,
     q_whichSet = ''train'', q_dataset = ''sthereo'', nNegSample = 10, nNeg = 1,
     nontrivial_positives = [[0]], queries = [0],
     potential_negatives = [[1, 2, 3, 4, 5, 6, 7, 8, 9, 10]],
     cache = Some ex_feat, negCache = [[]]\<rparr>"

definition ex_far_ds :: "string query_dataset" where
  "ex_far_ds = ex_ds\<lparr>cache := Some ex_far\<rparr>"

definition ex_few_ds :: "string query_dataset" where
  "ex_few_ds = ex_ds\<lparr>nNegSample := 3\<rparr>"

definition ex_sampled :: sampled where
  "ex_sampled = \<lparr>index = 0, qFeat = [0], dPos = 1, posIndex = 0,
     negSample = [1, 2, 3, 4, 5, 6, 7, 8, 9, 10]\<rparr>"

definition ex_few_sampled :: sampled where
  "ex_few_sampled = \<lparr>index = 0, qFeat = [0], dPos = 1, posIndex = 0, negSample = [1, 2, 3]\<rparr>"

definition ex_dNeg :: "real list" where
  "ex_dNeg = [1/2, 3/2, 5, 7, 9, 10, 11, 12, 13, 14]"

definition ex_far_dNeg :: "real list" where
  "ex_far_dNeg = [2, 3, 5, 7, 9, 10, 11, 12, 13, 14]"

definition ex_negNN :: "nat list" where
  "ex_negNN = [3, 1, 0, 2, 4, 5, 6, 7, 8, 9]"

definition ex_fs :: "string \<Rightarrow> string option" where
  \<comment> \<open>A file system where every path holds an image, here named by its path.\<close>
  "ex_fs path = Some path"


text \<open>
  The scenario of the specification: three database images at the distances \<open>0.05\<close>,
  \<open>2\<close> and \<open>5\<close> of the one query.
\<close>

definition ex_scenario :: dbStruct where
  "ex_scenario = \<lparr>whichSet = ''test'', dataset = ''sthereo'',
     dbImage = [''s:0'', ''s:1'', ''s:2''], utmDb = [[1/20], [2], [5]],
     qImage = [''q:0''], utmQ = [[0]], numDb = 3, numQ = 1,
     posDistThr = 1, nonTrivPosDistSqThr = 1/100\<rparr>"

definition ex_scenario_ds :: "string query_dataset" where
  "ex_scenario_ds = \<lparr>input_transform = None, margin = 1/10, q_dbStruct = ex_scenario,
     q_whichSet = ''test'', q_dataset = ''sthereo'', nNegSample = 1000, nNeg = 10,
     nontrivial_positives = [[0]], queries = [0], potential_negatives = [[1, 2]],
     cache = None, negCache = [[]]\<rparr>"

definition ex_whole :: whole_dataset where
  "ex_whole = \<lparr>w_dbStruct = ex_scenario,
     images = [''/mydata/dataset/STHEREO/s/rgb_left/0.png'',
               ''/mydata/dataset/STHEREO/s/rgb_left/1.png'',
               ''/mydata/dataset/STHEREO/s/rgb_left/2.png'',
               ''/mydata/dataset/STHEREO/q/rgb_left/0.png''],
     positives = None, distances = None\<rparr>"

definition ex_whole_done :: whole_dataset where
  "ex_whole_done = ex_whole\<lparr>positives := Some [[0]], distances := Some [[1/20]]\<rparr>"





section \<open>Properties\<close>

subsection \<open>Results and errors\<close>

lemma and_then_Inl [simp]: "and_then (Inl e) f = Inl e"
  by (simp add: and_then_def)

lemma and_then_Inr [simp]: "and_then (Inr x) f = f x"
  by (simp add: and_then_def)

lemma and_then_eq_Inr: "and_then r f = Inr y \<longleftrightarrow> (\<exists>x. r = Inr x \<and> f x = Inr y)"
  by (cases r) simp_all

lemma nth_err_eq_Inr: "nth_err xs i = Inr x \<longleftrightarrow> i < length xs \<and> x = xs ! i"
  by (auto simp: nth_err_def)

lemma fit_eq_Inr: "fit X = Inr F \<longleftrightarrow> check_array X \<and> F = X"
  by (auto simp: fit_def)

lemma h5_rows_eq_Inr:
  "h5_rows h idxs = Inr rows \<longleftrightarrow>
     sorted_wrt (<) idxs \<and> (\<forall>i\<in>set idxs. i < length h) \<and> rows = map (\<lambda>i. h ! i) idxs"
  by (auto simp: h5_rows_def list_all_iff)

lemma open_cache_eq_Inr: "open_cache self = Inr h \<longleftrightarrow> cache self = Some h"
  by (simp add: open_cache_def split: option.splits)

subsection \<open>Masks\<close>

lemma mask_select_map: "mask_select xs (map P (map f xs)) = filter (\<lambda>x. P (f x)) xs"
  unfolding mask_select_def by (induction xs) auto

lemma np_sum_map: "np_sum (map P xs) = length (filter P xs)"
  unfolding np_sum_def by (induction xs) auto

lemma np_sum_zero: "np_sum (map P xs) < 1 \<longleftrightarrow> (\<forall>x\<in>set xs. \<not> P x)"
  by (simp add: np_sum_map filter_empty_conv)

subsection \<open>Nearest neighbours\<close>

lemma kneighbors_Inr:
  assumes "kneighbors F q k = Inr (d, nn)"
  shows "0 < k" and "k \<le> length F" and "length nn = k" and "length d = k"
    and "d = map (\<lambda>j. euclidean q (F ! j)) nn" and "sorted d" and "distinct nn"
    and "set nn \<subseteq> {..<length F}"
proof -
  let ?f = "\<lambda>j. euclidean q (F ! j)"
  from assms have k: "0 < k" "k \<le> length F"
    and nn: "nn = take k (sort_key ?f [0..<length F])" and d: "d = map ?f nn"
    by (auto simp: kneighbors_def Let_def split: if_splits)
  show "0 < k" "k \<le> length F" by fact+
  show "length nn = k" using k by (simp add: nn)
  then show "length d = k" by (simp add: d)
  show "d = map ?f nn" by fact
  have "sorted (map ?f (sort_key ?f [0..<length F]))" by (rule sorted_sort_key)
  then have "sorted (take k (map ?f (sort_key ?f [0..<length F])))" by (rule sorted_wrt_take)
  then show "sorted d" by (simp add: d nn take_map)
  have "distinct (sort_key ?f [0..<length F])" by simp
  then show "distinct nn" unfolding nn by (rule distinct_take)
  have "set nn \<subseteq> set (sort_key ?f [0..<length F])" unfolding nn by (rule set_take_subset)
  then show "set nn \<subseteq> {..<length F}" by auto
qed

lemma kneighbors_nearest:
  assumes "kneighbors F q 1 = Inr (d, nn)"
  shows "\<exists>j<length F. nn = [j] \<and> d = [euclidean q (F ! j)] \<and>
           (\<forall>j'<length F. euclidean q (F ! j) \<le> euclidean q (F ! j'))"
proof -
  let ?f = "\<lambda>j. euclidean q (F ! j)"
  let ?L = "sort_key ?f [0..<length F]"
  from kneighbors_Inr(2) [OF assms] have len: "1 \<le> length F" .
  from assms have nn: "nn = take 1 ?L" and d: "d = map ?f nn"
    by (auto simp: kneighbors_def Let_def split: if_splits)
  from len have "?L \<noteq> []" by (auto simp flip: length_0_conv)
  then obtain j js where L: "?L = j # js" by (cases ?L) auto
  have "set ?L = {0..<length F}" by simp
  with L have j: "j < length F" and all: "\<forall>j'<length F. j' \<in> set (j # js)" by auto
  have "sorted (map ?f ?L)" by (rule sorted_sort_key)
  with L have "\<forall>x\<in>set (j # js). ?f j \<le> ?f x" by auto
  with all have "\<forall>j'<length F. ?f j \<le> ?f j'" by blast
  moreover have "nn = [j]" by (simp add: nn L)
  ultimately show ?thesis using j d by auto
qed

subsection \<open>The steps of the miner\<close>

lemma unique_props: "sorted_wrt (<) (unique xs)" "distinct (unique xs)" "set (unique xs) = set xs"
  by (simp_all add: unique_def strict_sorted_iff)

lemma mine_sample_Inr:
  assumes "mine_sample self rnd i = Inr s"
  shows "\<exists>h ntp dP posNN pn smp.
      i < length (queries self) \<and> index s = queries self ! i \<and>
      cache self = Some h \<and>
      index s + numDb (q_dbStruct self) < length h \<and>
      qFeat s = h ! (index s + numDb (q_dbStruct self)) \<and>
      index s < length (nontrivial_positives self) \<and> ntp = nontrivial_positives self ! index s \<and>
      (\<forall>p\<in>set ntp. p < length h) \<and>
      kneighbors (map (\<lambda>p. h ! p) ntp) (qFeat s) 1 = Inr (dP, posNN) \<and>
      dPos s = hd dP \<and> posIndex s = ntp ! hd posNN \<and>
      index s < length (potential_negatives self) \<and> pn = potential_negatives self ! index s \<and>
      choice pn (nNegSample self) rnd = Inr smp \<and>
      index s < length (negCache self) \<and>
      negSample s = unique (negCache self ! index s @ smp)"
  using assms unfolding mine_sample_def
  by (auto simp: and_then_eq_Inr nth_err_eq_Inr fit_eq_Inr h5_rows_eq_Inr open_cache_eq_Inr
      h5_row_def split: prod.splits)

lemma rank_candidates_Inr:
  assumes "rank_candidates self s = Inr (dNeg, negNN)"
  shows "\<exists>h. cache self = Some h \<and> (\<forall>c\<in>set (negSample s). c < length h) \<and>
     kneighbors (map (\<lambda>c. h ! c) (negSample s)) (qFeat s) (nNeg self * 10) = Inr (dNeg, negNN)"
  using assms unfolding rank_candidates_def
  by (auto simp: and_then_eq_Inr fit_eq_Inr h5_rows_eq_Inr open_cache_eq_Inr)


lemma ranked_candidates:
  assumes "rank_candidates self s = Inr (dNeg, negNN)" and "cache self = Some h"
  shows "dNeg = map (\<lambda>c. euclidean (qFeat s) (h ! c)) (map (\<lambda>j. negSample s ! j) negNN)"
    and "sorted dNeg" and "length negNN = nNeg self * 10" and "length dNeg = nNeg self * 10"
    and "nNeg self * 10 \<le> length (negSample s)" and "0 < nNeg self"
    and "set negNN \<subseteq> {..<length (negSample s)}" and "distinct negNN"
proof -
  let ?F = "map (\<lambda>c. h ! c) (negSample s)"
  from rank_candidates_Inr [OF assms(1)] assms(2)
  have kn: "kneighbors ?F (qFeat s) (nNeg self * 10) = Inr (dNeg, negNN)" by auto
  from kneighbors_Inr(8) [OF kn] show sub: "set negNN \<subseteq> {..<length (negSample s)}" by simp
  from kneighbors_Inr(5) [OF kn] sub
  show "dNeg = map (\<lambda>c. euclidean (qFeat s) (h ! c)) (map (\<lambda>j. negSample s ! j) negNN)"
    by (auto simp: subset_iff)
  from kneighbors_Inr(6) [OF kn] show "sorted dNeg" .
  from kneighbors_Inr(3) [OF kn] show "length negNN = nNeg self * 10" .
  from kneighbors_Inr(4) [OF kn] show "length dNeg = nNeg self * 10" .
  from kneighbors_Inr(2) [OF kn] show "nNeg self * 10 \<le> length (negSample s)" by simp
  from kneighbors_Inr(1) [OF kn] show "0 < nNeg self" by simp
  from kneighbors_Inr(7) [OF kn] show "distinct negNN" .
qed

lemma select_negatives_filter:
  assumes "rank_candidates self s = Inr (dNeg, negNN)" and "cache self = Some h"
  shows "select_negatives self s (dNeg, negNN) =
     take (nNeg self) (filter (\<lambda>c. euclidean (qFeat s) (h ! c) < dPos s + sqrt (margin self))
       (map (\<lambda>j. negSample s ! j) negNN))"
proof -
  let ?g = "\<lambda>j. negSample s ! j"
  let ?dist = "\<lambda>c. euclidean (qFeat s) (h ! c)"
  let ?t = "dPos s + sqrt (margin self)"
  have d: "dNeg = map ?dist (map ?g negNN)" by (rule ranked_candidates(1) [OF assms])
  have "select_negatives self s (dNeg, negNN) =
      map ?g (take (nNeg self) (mask_select negNN (map (\<lambda>d. d < ?t) (map (\<lambda>j. ?dist (?g j)) negNN))))"
    by (simp add: select_negatives_def violatingNeg_def d o_def)
  also have "\<dots> = map ?g (take (nNeg self) (filter (\<lambda>j. ?dist (?g j) < ?t) negNN))"
    by (simp only: mask_select_map)
  also have "\<dots> = take (nNeg self) (filter (\<lambda>c. ?dist c < ?t) (map ?g negNN))"
    by (simp add: take_map filter_map o_def)
  finally show ?thesis .
qed

lemma best_positive:
  assumes "mine_sample self rnd i = Inr s" and "cache self = Some h"
  shows "posIndex s \<in> set (nontrivial_positives self ! index s)"
    and "dPos s = euclidean (qFeat s) (h ! posIndex s)"
    and "\<forall>p\<in>set (nontrivial_positives self ! index s). dPos s \<le> euclidean (qFeat s) (h ! p)"
proof -
  let ?ntp = "nontrivial_positives self ! index s"
  let ?F = "map (\<lambda>p. h ! p) ?ntp"
  from mine_sample_Inr [OF assms(1)] assms(2) obtain dP posNN where
    kn: "kneighbors ?F (qFeat s) 1 = Inr (dP, posNN)"
    and dP: "dPos s = hd dP" and pI: "posIndex s = ?ntp ! hd posNN"
    by auto
  from kneighbors_nearest [OF kn] obtain j where j: "j < length ?ntp" and nn: "posNN = [j]"
    and d: "dP = [euclidean (qFeat s) (?F ! j)]"
    and le: "\<forall>j'<length ?ntp. euclidean (qFeat s) (?F ! j) \<le> euclidean (qFeat s) (?F ! j')"
    by auto
  show "posIndex s \<in> set ?ntp" using j by (simp add: pI nn)
  show eq: "dPos s = euclidean (qFeat s) (h ! posIndex s)" using j by (simp add: dP d pI nn)
  show "\<forall>p\<in>set ?ntp. dPos s \<le> euclidean (qFeat s) (h ! p)"
  proof
    fix p assume "p \<in> set ?ntp"
    then obtain j' where "j' < length ?ntp" "p = ?ntp ! j'" by (auto simp: in_set_conv_nth)
    with le j show "dPos s \<le> euclidean (qFeat s) (h ! p)" by (auto simp: eq pI nn)
  qed
qed

lemma getitem_ranked:
  assumes "mine_sample self rnd i = Inr s" and "rank_candidates self s = Inr r"
  shows "getitem fs rnd self i =
     (if np_sum (violatingNeg (fst r) (dPos s) (margin self)) < 1 then (Inr None, self)
      else (case load_example fs (self\<lparr>negCache := (negCache self)[index s := select_negatives self s r]\<rparr>)
                   s (select_negatives self s r) of
              Inl e \<Rightarrow> (Inl e, self\<lparr>negCache := (negCache self)[index s := select_negatives self s r]\<rparr>)
            | Inr ex \<Rightarrow>
                (Inr (Some ex), self\<lparr>negCache := (negCache self)[index s := select_negatives self s r]\<rparr>)))"
  by (simp add: getitem_def assms Let_def)

text \<open>
  C1. Where the pool was sampled and ranked, the mask of the margin test is true exactly at
  the ranked candidates whose distance to the query is less than \<open>dPos + margin ^ 0.5\<close>,
  \<open>dPos\<close> being the least distance from the query to one of its nontrivial positives; the
  negatives chosen are the first \<open>nNeg\<close> of the violating candidates in the order of the
  ranking, which is ascending in the distance; the call returns \<^verbatim>\<open>None\<close> exactly when no
  candidate violates, and otherwise leaves the chosen negatives in the negative cache.
  The margin is non-negative, where \<open>sqrt\<close> is the \<^verbatim>\<open>**0.5\<close> of the source.
\<close>

theorem violating_negatives_selected:
  assumes "mine_sample self rnd i = Inr s"
    and "rank_candidates self s = Inr (dNeg, negNN)"
    and "0 \<le> margin self"
  shows "\<exists>h. cache self = Some h \<and>
    (let dist = (\<lambda>c. euclidean (qFeat s) (h ! c));
         cands = map (\<lambda>j. negSample s ! j) negNN;
         t = dPos s + sqrt (margin self);
         chosen = take (nNeg self) (filter (\<lambda>c. dist c < t) cands)
     in dNeg = map dist cands \<and> sorted dNeg \<and>
        posIndex s \<in> set (nontrivial_positives self ! index s) \<and>
        dPos s = dist (posIndex s) \<and>
        (\<forall>p\<in>set (nontrivial_positives self ! index s). dPos s \<le> dist p) \<and>
        violatingNeg dNeg (dPos s) (margin self) = map (\<lambda>c. dist c < t) cands \<and>
        select_negatives self s (dNeg, negNN) = chosen \<and>
        sorted (map dist chosen) \<and> length chosen \<le> nNeg self \<and>
        (fst (getitem fs rnd self i) = Inr None \<longleftrightarrow> (\<forall>c\<in>set cands. \<not> dist c < t)) \<and>
        ((\<exists>c\<in>set cands. dist c < t) \<longrightarrow>
           snd (getitem fs rnd self i) = self\<lparr>negCache := (negCache self)[index s := chosen]\<rparr>))"
proof -
  from rank_candidates_Inr [OF assms(2)] obtain h where h: "cache self = Some h" by auto
  let ?dist = "\<lambda>c. euclidean (qFeat s) (h ! c)"
  let ?cands = "map (\<lambda>j. negSample s ! j) negNN"
  let ?t = "dPos s + sqrt (margin self)"
  let ?chosen = "take (nNeg self) (filter (\<lambda>c. ?dist c < ?t) ?cands)"
  let ?self' = "self\<lparr>negCache := (negCache self)[index s := ?chosen]\<rparr>"
  have d: "dNeg = map ?dist ?cands" by (rule ranked_candidates(1) [OF assms(2) h])
  have srt: "sorted dNeg" by (rule ranked_candidates(2) [OF assms(2) h])
  have viol: "violatingNeg dNeg (dPos s) (margin self) = map (\<lambda>c. ?dist c < ?t) ?cands"
    unfolding violatingNeg_def by (subst d) (simp add: o_def)
  have sel: "select_negatives self s (dNeg, negNN) = ?chosen"
    by (rule select_negatives_filter [OF assms(2) h])
  have "sorted (map ?dist ?cands)" using srt d by simp
  then have "sorted (map ?dist (filter (\<lambda>c. ?dist c < ?t) ?cands))" by (rule sorted_filter)
  then have "sorted (take (nNeg self) (map ?dist (filter (\<lambda>c. ?dist c < ?t) ?cands)))"
    by (rule sorted_wrt_take)
  then have srt': "sorted (map ?dist ?chosen)" by (simp only: take_map)
  have len: "length ?chosen \<le> nNeg self" by simp
  have none: "np_sum (violatingNeg dNeg (dPos s) (margin self)) < 1 \<longleftrightarrow>
      (\<forall>c\<in>set ?cands. \<not> ?dist c < ?t)"
    unfolding viol by (rule np_sum_zero)
  have g: "getitem fs rnd self i =
     (if \<forall>c\<in>set ?cands. \<not> ?dist c < ?t then (Inr None, self)
      else (case load_example fs ?self' s ?chosen of
              Inl e \<Rightarrow> (Inl e, ?self') | Inr ex \<Rightarrow> (Inr (Some ex), ?self')))"
    unfolding getitem_ranked [OF assms(1,2)] fst_conv none sel ..
  have out: "fst (getitem fs rnd self i) = Inr None \<longleftrightarrow> (\<forall>c\<in>set ?cands. \<not> ?dist c < ?t)"
    unfolding g by (simp split: sum.splits)
  have st: "(\<exists>c\<in>set ?cands. ?dist c < ?t) \<longrightarrow> snd (getitem fs rnd self i) = ?self'"
    unfolding g by (simp split: sum.splits)
  note bp = best_positive [OF assms(1) h]
  show ?thesis
    unfolding Let_def using h d srt bp viol sel srt' len out st by blast
qed

text \<open>
  C2. Where the ranking was reached and no ranked candidate passes the margin test, the
  call returns \<^verbatim>\<open>None\<close>, raises nothing and leaves the dataset, and so its negative
  cache, as it was.
\<close>

theorem no_violation_returns_None:
  assumes "mine_sample self rnd i = Inr s"
    and "rank_candidates self s = Inr (dNeg, negNN)"
    and "\<forall>d\<in>set dNeg. \<not> d < dPos s + sqrt (margin self)"
  shows "getitem fs rnd self i = (Inr None, self) \<and>
         negCache (snd (getitem fs rnd self i)) = negCache self"
proof -
  have "np_sum (violatingNeg dNeg (dPos s) (margin self)) < 1"
    unfolding violatingNeg_def np_sum_zero using assms(3) .
  then have "getitem fs rnd self i = (Inr None, self)"
    by (simp add: getitem_ranked [OF assms(1,2)])
  then show ?thesis by simp
qed

subsection \<open>Loading the images\<close>




lemma length_filter_mono:
  "\<forall>x. P x \<longrightarrow> Q x \<Longrightarrow> length (filter P xs) \<le> length (filter Q xs)"
  by (induction xs) auto

lemma length_mask_select:
  "length xs = length msk \<Longrightarrow> length (mask_select xs msk) = np_sum msk"
  unfolding mask_select_def np_sum_def by (induction xs msk rule: list_induct2) auto

lemma length_select_negatives:
  assumes "length (snd r) = length (fst r)"
  shows "length (select_negatives self s r) =
     min (nNeg self) (np_sum (violatingNeg (fst r) (dPos s) (margin self)))"
proof -
  have "length (snd r) = length (violatingNeg (fst r) (dPos s) (margin self))"
    using assms by (simp add: violatingNeg_def)
  then show ?thesis
    by (simp add: select_negatives_def Let_def length_mask_select min.commute)
qed

text \<open>
  C5. With the cache, the candidate sets, the negative cache and the random draw fixed,
  the sampled pool and its ranking do not depend on the margin, and a larger margin
  never gives fewer violating candidates, nor fewer chosen negatives. The margins are
  non-negative, where \<open>sqrt\<close> is the \<^verbatim>\<open>**0.5\<close> of the source.
\<close>

theorem margin_monotone:
  assumes "0 \<le> m1" and "m1 \<le> m2"
    and "mine_sample (self\<lparr>margin := m1\<rparr>) rnd i = Inr s"
    and "rank_candidates (self\<lparr>margin := m1\<rparr>) s = Inr (dNeg, negNN)"
  shows "mine_sample (self\<lparr>margin := m2\<rparr>) rnd i = Inr s \<and>
         rank_candidates (self\<lparr>margin := m2\<rparr>) s = Inr (dNeg, negNN) \<and>
         np_sum (violatingNeg dNeg (dPos s) m1) \<le> np_sum (violatingNeg dNeg (dPos s) m2) \<and>
         length (select_negatives (self\<lparr>margin := m1\<rparr>) s (dNeg, negNN))
           \<le> length (select_negatives (self\<lparr>margin := m2\<rparr>) s (dNeg, negNN))"
proof -
  have "mine_sample (self\<lparr>margin := m2\<rparr>) rnd i = mine_sample (self\<lparr>margin := m1\<rparr>) rnd i"
    by (simp add: mine_sample_def open_cache_def)
  moreover have "rank_candidates (self\<lparr>margin := m2\<rparr>) s = rank_candidates (self\<lparr>margin := m1\<rparr>) s"
    by (simp add: rank_candidates_def open_cache_def)
  moreover have "np_sum (violatingNeg dNeg (dPos s) m1) \<le> np_sum (violatingNeg dNeg (dPos s) m2)"
  proof -
    from assms(2) have le: "sqrt m1 \<le> sqrt m2" by simp
    have "\<forall>d. d < dPos s + sqrt m1 \<longrightarrow> d < dPos s + sqrt m2"
      using le by (intro allI impI) linarith
    then show ?thesis unfolding violatingNeg_def np_sum_map by (rule length_filter_mono)
  qed
  moreover have "length negNN = length dNeg"
  proof -
    from rank_candidates_Inr [OF assms(4)] obtain h where h: "cache (self\<lparr>margin := m1\<rparr>) = Some h"
      by blast
    from ranked_candidates(3,4) [OF assms(4) h] show ?thesis by simp
  qed
  ultimately show ?thesis using assms(3,4) by (simp add: length_select_negatives)
qed


lemma rank_candidates_small_pool:
  assumes "length (negSample s) < 10 * nNeg self"
  shows "\<exists>e. rank_candidates self s = Inl e"
proof (cases "rank_candidates self s")
  case (Inl e)
  then show ?thesis by blast
next
  case (Inr r)
  obtain dNeg negNN where "r = (dNeg, negNN)" by (cases r)
  with Inr have r: "rank_candidates self s = Inr (dNeg, negNN)" by simp
  from rank_candidates_Inr [OF r] obtain h where h: "cache self = Some h" by blast
  from ranked_candidates(5) [OF r h] assms show ?thesis by simp
qed

lemma rank_candidates_ValueError:
  assumes "cache self = Some h" and "\<forall>c\<in>set (negSample s). c < length h"
    and "sorted_wrt (<) (negSample s)"
    and "length (negSample s) < 10 * nNeg self"
  shows "rank_candidates self s = Inl ValueError"
proof -
  have rows: "h5_rows h (negSample s) = Inr (map (\<lambda>c. h ! c) (negSample s))"
    using assms(2,3) by (simp add: h5_rows_eq_Inr)
  show ?thesis
    using assms(1,4)
    by (simp add: rank_candidates_def open_cache_def rows fit_def kneighbors_def)
qed

text \<open>
  C6. The ranking asks the nearest-neighbour search for \<open>10 * nNeg\<close> neighbours. The pool
  holds each index once, the sampled potential negatives and the previous negatives of
  the query; when it has fewer than \<open>10 * nNeg\<close> indices the call raises (a
  \<^verbatim>\<open>ValueError\<close> of the search when the cache has a row for every pooled index) and the
  dataset is left as it was.
\<close>

theorem ranking_requests_ten_nNeg:
  assumes "mine_sample self rnd i = Inr s"
  shows "\<exists>h smp. cache self = Some h \<and>
      choice (potential_negatives self ! index s) (nNegSample self) rnd = Inr smp \<and>
      length smp = nNegSample self \<and>
      distinct (negSample s) \<and>
      set (negSample s) = set (negCache self ! index s) \<union> set smp \<and>
      (\<forall>dNeg negNN. rank_candidates self s = Inr (dNeg, negNN) \<longrightarrow>
         length dNeg = 10 * nNeg self \<and> length negNN = 10 * nNeg self \<and> distinct negNN) \<and>
      (card (set (negCache self ! index s) \<union> set smp) < 10 * nNeg self \<longrightarrow>
         (\<exists>e. getitem fs rnd self i = (Inl e, self)) \<and>
         ((\<forall>c\<in>set (negSample s). c < length h) \<longrightarrow>
            getitem fs rnd self i = (Inl ValueError, self)))"
proof -
  from mine_sample_Inr [OF assms] obtain h smp where h: "cache self = Some h"
    and smp: "choice (potential_negatives self ! index s) (nNegSample self) rnd = Inr smp"
    and pool: "negSample s = unique (negCache self ! index s @ smp)"
    by blast
  from smp have len: "length smp = nNegSample self"
    by (auto simp: choice_def split: if_splits)
  have dist: "distinct (negSample s)" and srt: "sorted_wrt (<) (negSample s)"
    and set: "set (negSample s) = set (negCache self ! index s) \<union> set smp"
    by (simp_all add: pool unique_props)
  have ranked: "\<forall>dNeg negNN. rank_candidates self s = Inr (dNeg, negNN) \<longrightarrow>
      length dNeg = 10 * nNeg self \<and> length negNN = 10 * nNeg self \<and> distinct negNN"
    using ranked_candidates(3,4,8) [OF _ h] by (simp add: mult.commute)
  have card: "card (set (negCache self ! index s) \<union> set smp) = length (negSample s)"
    using dist by (simp add: set [symmetric] distinct_card)
  have small: "card (set (negCache self ! index s) \<union> set smp) < 10 * nNeg self \<longrightarrow>
      (\<exists>e. getitem fs rnd self i = (Inl e, self)) \<and>
      ((\<forall>c\<in>set (negSample s). c < length h) \<longrightarrow>
         getitem fs rnd self i = (Inl ValueError, self))"
  proof (intro impI conjI)
    assume "card (set (negCache self ! index s) \<union> set smp) < 10 * nNeg self"
    then have lt: "length (negSample s) < 10 * nNeg self" by (simp add: card)
    from rank_candidates_small_pool [OF lt] obtain e where "rank_candidates self s = Inl e" ..
    then have "getitem fs rnd self i = (Inl e, self)" by (simp add: getitem_def assms)
    then show "\<exists>e. getitem fs rnd self i = (Inl e, self)" ..
    assume "\<forall>c\<in>set (negSample s). c < length h"
    from rank_candidates_ValueError [OF h this srt lt]
    show "getitem fs rnd self i = (Inl ValueError, self)" by (simp add: getitem_def assms)
  qed
  from h smp len dist set ranked small show ?thesis by blast
qed

subsection \<open>Construction\<close>

lemma init_Inr:
  assumes "QueryDatasetFromJson_init dbs a b m t = Inr ds"
  shows "check_array (utmDb dbs)" and "check_query (utmDb dbs) (utmQ dbs)"
    and "nontrivial_positives ds =
      map (\<lambda>q. sort (filter (\<lambda>j. euclidean q (utmDb dbs ! j) \<le> sqrt (nonTrivPosDistSqThr dbs))
                 [0..<length (utmDb dbs)])) (utmQ dbs)"
    and "queries ds = filter (\<lambda>q. 0 < length (nontrivial_positives ds ! q))
                        [0..<length (nontrivial_positives ds)]"
    and "potential_negatives ds =
      map (\<lambda>q. setdiff1d (arange (numDb dbs))
                 (filter (\<lambda>j. euclidean q (utmDb dbs ! j) \<le> posDistThr dbs) [0..<length (utmDb dbs)]))
        (utmQ dbs)"
    and "negCache ds = replicate (numQ dbs) []" and "cache ds = None"
    and "margin ds = m" and "nNeg ds = b" and "nNegSample ds = a" and "q_dbStruct ds = dbs"
  using assms unfolding QueryDatasetFromJson_init_def
  by (auto simp: and_then_eq_Inr fit_eq_Inr radius_neighbors_def Let_def o_def split: if_splits)

text \<open>
  C4. After construction the potential negatives of a query are the indices below
  \<open>numDb\<close>, in ascending order and each once, that are not in the neighbourhood of the
  query at the positive distance threshold; the two sets are disjoint, and where the
  manifest keeps its invariant \<open>numDb = len(utmDb)\<close> they partition \<open>[0, numDb)\<close>.
\<close>

theorem potential_negatives_complement:
  assumes "QueryDatasetFromJson_init dbs a b m t = Inr ds" and "q < length (utmQ dbs)"
  shows "length (potential_negatives ds) = length (utmQ dbs) \<and>
     potential_negatives ds ! q =
       filter (\<lambda>j. j \<notin> positiveNeighborhood dbs q) [0..<numDb dbs] \<and>
     sorted_wrt (<) (potential_negatives ds ! q) \<and>
     set (potential_negatives ds ! q) = {0..<numDb dbs} - positiveNeighborhood dbs q \<and>
     set (potential_negatives ds ! q) \<inter> positiveNeighborhood dbs q = {} \<and>
     (numDb dbs = length (utmDb dbs) \<longrightarrow>
        set (potential_negatives ds ! q) \<union> positiveNeighborhood dbs q = {0..<numDb dbs})"
proof -
  note pn = init_Inr(5) [OF assms(1)]
  have len: "length (potential_negatives ds) = length (utmQ dbs)" by (simp add: pn)
  have eq: "potential_negatives ds ! q =
      filter (\<lambda>j. j \<notin> positiveNeighborhood dbs q) [0..<numDb dbs]"
    using assms(2) by (simp add: pn setdiff1d_def arange_def positiveNeighborhood_def)
  have srt: "sorted_wrt (<) (potential_negatives ds ! q)"
    unfolding eq by (rule sorted_wrt_filter) (simp add: sorted_wrt_upt)
  have set: "set (potential_negatives ds ! q) = {0..<numDb dbs} - positiveNeighborhood dbs q"
    unfolding eq by auto
  have sub: "positiveNeighborhood dbs q \<subseteq> {0..<length (utmDb dbs)}"
    by (auto simp: positiveNeighborhood_def)
  from len eq srt set sub show ?thesis by auto
qed


subsection \<open>The evaluation dataset\<close>

text \<open>
  C8. After a call of \<open>getPositives\<close> that returned, a second call on the dataset it left
  returns the same positives, changes nothing and makes no radius search; the first call
  made one search if the positives were not yet computed, none otherwise.
\<close>

theorem getPositives_memoised:
  assumes "getPositives self = Inr (pos, self', n)"
  shows "getPositives self' = Inr (pos, self', 0) \<and> positives self' = Some pos \<and>
     (positives self = None \<longrightarrow> n = 1 \<and>
        radius_neighbors (utmDb (w_dbStruct self)) (utmQ (w_dbStruct self))
          (posDistThr (w_dbStruct self)) = Inr pos) \<and>
     (positives self \<noteq> None \<longrightarrow> n = 0 \<and> self' = self)"
proof (cases "positives self")
  case None
  with assms show ?thesis
    by (auto simp: getPositives_def radius_neighbors_dist_def and_then_eq_Inr fit_eq_Inr
        split: prod.splits)
next
  case (Some p)
  with assms show ?thesis by (auto simp: getPositives_def)
qed

subsection \<open>The manifest handler\<close>



section \<open>The concrete datasets, evaluated\<close>

lemma euclidean_1d: "euclidean [a] [b] = \<bar>a - b\<bar>"
  by (simp add: euclidean_def)

lemmas eval_defs = nth_err_def fit_def check_array_def check_query_def
  radius_neighbors_def kneighbors_def arange_def setdiff1d_def unique_def choice_def
  h5_row_def h5_rows_def open_cache_def euclidean_1d upt_rec

lemma ex_ds_fields:
  "margin ex_ds = 1" "nNeg ex_ds = 1" "negCache ex_ds = [[]]" "input_transform ex_ds = None"
  "q_dbStruct ex_ds = ex_db" "cache ex_ds = Some ex_feat"
  by (simp_all add: ex_ds_def)

lemma ex_mine_sample: "mine_sample ex_ds id 0 = Inr ex_sampled"
  by (simp add: mine_sample_def ex_db_def ex_ds_def ex_feat_def ex_sampled_def eval_defs)

lemma ex_rank_candidates: "rank_candidates ex_ds ex_sampled = Inr (ex_dNeg, ex_negNN)"
  by (simp add: rank_candidates_def ex_ds_def ex_feat_def ex_sampled_def ex_dNeg_def
      ex_negNN_def eval_defs)

lemma ex_far_mine_sample: "mine_sample ex_far_ds id 0 = Inr ex_sampled"
  by (simp add: mine_sample_def ex_db_def ex_far_ds_def ex_ds_def ex_far_def ex_sampled_def
      eval_defs)

lemma ex_far_rank_candidates: "rank_candidates ex_far_ds ex_sampled = Inr (ex_far_dNeg, ex_negNN)"
  by (simp add: rank_candidates_def ex_far_ds_def ex_ds_def ex_far_def ex_sampled_def
      ex_far_dNeg_def ex_negNN_def eval_defs)

lemma ex_few_mine_sample: "mine_sample ex_few_ds id 0 = Inr ex_few_sampled"
  by (simp add: mine_sample_def ex_db_def ex_few_ds_def ex_ds_def ex_feat_def
      ex_few_sampled_def eval_defs)

lemma ex_select_negatives: "select_negatives ex_ds ex_sampled (ex_dNeg, ex_negNN) = [4]"
  by (simp add: select_negatives_def violatingNeg_def mask_select_def ex_ds_fields
      ex_sampled_def ex_dNeg_def ex_negNN_def)


text \<open>
  The dataset \<open>ex_ds\<close> with margin \<open>1\<close>: the best positive is at distance \<open>1\<close>, the
  candidates at the distances \<open>1/2\<close> and \<open>3/2\<close> violate, and the first of them, image
  \<open>4\<close>, is the one negative kept.
\<close>

theorem violating_negatives_selected_witness:
  "mine_sample ex_ds id 0 = Inr ex_sampled \<and>
   rank_candidates ex_ds ex_sampled = Inr (ex_dNeg, ex_negNN) \<and>
   0 \<le> margin ex_ds \<and>
   select_negatives ex_ds ex_sampled (ex_dNeg, ex_negNN) =
     take (nNeg ex_ds)
       (filter (\<lambda>c. euclidean (qFeat ex_sampled) (ex_feat ! c) < dPos ex_sampled + sqrt (margin ex_ds))
          (map (\<lambda>j. negSample ex_sampled ! j) ex_negNN)) \<and>
   sorted ex_dNeg \<and>
   snd (getitem ex_fs id ex_ds 0) = ex_ds\<lparr>negCache := [[4]]\<rparr>"
proof -
  have m: "0 \<le> margin ex_ds" by (simp add: ex_ds_fields)
  have c: "\<exists>c\<in>set (map (\<lambda>j. negSample ex_sampled ! j) ex_negNN).
      euclidean (qFeat ex_sampled) (ex_feat ! c) < dPos ex_sampled + sqrt (margin ex_ds)"
    by (simp add: ex_sampled_def ex_negNN_def ex_feat_def ex_ds_fields euclidean_1d)
  from violating_negatives_selected [OF ex_mine_sample ex_rank_candidates m, of ex_fs]
  show ?thesis
    using ex_mine_sample ex_rank_candidates m c ex_select_negatives
    by (auto simp: Let_def ex_ds_fields ex_sampled_def)
qed

text \<open>
  The feature table \<open>ex_far\<close> puts every candidate at distance \<open>2\<close> or more, the bound
  of the test: nothing violates.
\<close>

theorem no_violation_returns_None_witness:
  "mine_sample ex_far_ds id 0 = Inr ex_sampled \<and>
   rank_candidates ex_far_ds ex_sampled = Inr (ex_far_dNeg, ex_negNN) \<and>
   list_all (\<lambda>d. \<not> d < dPos ex_sampled + sqrt (margin ex_far_ds)) ex_far_dNeg \<and>
   getitem ex_fs id ex_far_ds 0 = (Inr None, ex_far_ds) \<and>
   negCache (snd (getitem ex_fs id ex_far_ds 0)) = negCache ex_far_ds"
proof -
  have v: "\<forall>d\<in>set ex_far_dNeg. \<not> d < dPos ex_sampled + sqrt (margin ex_far_ds)"
    by (simp add: ex_far_dNeg_def ex_sampled_def ex_far_ds_def ex_ds_fields)
  from no_violation_returns_None [OF ex_far_mine_sample ex_far_rank_candidates v, of ex_fs]
  show ?thesis
    using ex_far_mine_sample ex_far_rank_candidates v by (simp add: list_all_iff)
qed

text \<open>
  The margins \<open>0\<close> and \<open>1\<close> on \<open>ex_ds\<close>: one violating candidate, then two.
\<close>

theorem margin_monotone_witness:
  "(0::real) \<le> 0 \<and> (0::real) \<le> 1 \<and>
   mine_sample (ex_ds\<lparr>margin := 0\<rparr>) id 0 = Inr ex_sampled \<and>
   rank_candidates (ex_ds\<lparr>margin := 0\<rparr>) ex_sampled = Inr (ex_dNeg, ex_negNN) \<and>
   mine_sample (ex_ds\<lparr>margin := 1\<rparr>) id 0 = Inr ex_sampled \<and>
   rank_candidates (ex_ds\<lparr>margin := 1\<rparr>) ex_sampled = Inr (ex_dNeg, ex_negNN) \<and>
   np_sum (violatingNeg ex_dNeg (dPos ex_sampled) 0) = 1 \<and>
   np_sum (violatingNeg ex_dNeg (dPos ex_sampled) 1) = 2 \<and>
   np_sum (violatingNeg ex_dNeg (dPos ex_sampled) 0) \<le> np_sum (violatingNeg ex_dNeg (dPos ex_sampled) 1)"
proof -
  have a: "(0::real) \<le> 0" and b: "(0::real) \<le> 1" by simp_all
  have s: "mine_sample (ex_ds\<lparr>margin := 0\<rparr>) id 0 = Inr ex_sampled"
    using ex_mine_sample by (simp add: mine_sample_def open_cache_def)
  have r: "rank_candidates (ex_ds\<lparr>margin := 0\<rparr>) ex_sampled = Inr (ex_dNeg, ex_negNN)"
    using ex_rank_candidates by (simp add: rank_candidates_def open_cache_def)
  have n0: "np_sum (violatingNeg ex_dNeg (dPos ex_sampled) 0) = 1"
    by (simp add: np_sum_def violatingNeg_def ex_dNeg_def ex_sampled_def)
  have n1: "np_sum (violatingNeg ex_dNeg (dPos ex_sampled) 1) = 2"
    by (simp add: np_sum_def violatingNeg_def ex_dNeg_def ex_sampled_def)
  from margin_monotone [OF a b s r] show ?thesis using a b s r n0 n1 by simp
qed

text \<open>
  With three draws the pool of \<open>ex_few_ds\<close> has three indices, fewer than the ten neighbours
  asked for; with ten draws \<open>ex_ds\<close> ranks ten candidates.
\<close>

theorem ranking_requests_ten_nNeg_witness:
  "mine_sample ex_few_ds id 0 = Inr ex_few_sampled \<and>
   card (set (negCache ex_few_ds ! index ex_few_sampled) \<union> set [1, 2, 3]) < 10 * nNeg ex_few_ds \<and>
   getitem ex_fs id ex_few_ds 0 = (Inl ValueError, ex_few_ds) \<and>
   mine_sample ex_ds id 0 = Inr ex_sampled \<and>
   rank_candidates ex_ds ex_sampled = Inr (ex_dNeg, ex_negNN) \<and>
   length ex_dNeg = 10 * nNeg ex_ds \<and> length ex_negNN = 10 * nNeg ex_ds"
proof -
  have smp: "choice (potential_negatives ex_few_ds ! index ex_few_sampled) (nNegSample ex_few_ds) id
      = Inr [1, 2, 3]"
    by (simp add: choice_def ex_few_ds_def ex_ds_def ex_few_sampled_def upt_rec)
  have card: "card (set (negCache ex_few_ds ! index ex_few_sampled) \<union> set [1, 2, 3])
      < 10 * nNeg ex_few_ds"
    by (simp add: ex_few_ds_def ex_ds_def ex_few_sampled_def)
  have rows: "\<forall>c\<in>set (negSample ex_few_sampled). c < length ex_feat"
    by (simp add: ex_few_sampled_def ex_feat_def)
  have cache: "cache ex_few_ds = Some ex_feat" by (simp add: ex_few_ds_def ex_ds_def)
  from ranking_requests_ten_nNeg [OF ex_few_mine_sample, of ex_fs] smp card rows cache
  have "getitem ex_fs id ex_few_ds 0 = (Inl ValueError, ex_few_ds)" by auto
  moreover from ranking_requests_ten_nNeg [OF ex_mine_sample, of ex_fs] ex_rank_candidates
  have "length ex_dNeg = 10 * nNeg ex_ds \<and> length ex_negNN = 10 * nNeg ex_ds" by blast
  ultimately show ?thesis
    using ex_few_mine_sample card ex_mine_sample ex_rank_candidates by simp
qed


lemma ex_join:
  "join root_dir [''q'', img_folder, ''0.png''] = ''/mydata/dataset/STHEREO/q/rgb_left/0.png''"
  "join root_dir [''s'', img_folder, ''0.png''] = ''/mydata/dataset/STHEREO/s/rgb_left/0.png''"
  "join root_dir [''s'', img_folder, ''1.png''] = ''/mydata/dataset/STHEREO/s/rgb_left/1.png''"
  "join root_dir [''s'', img_folder, ''2.png''] = ''/mydata/dataset/STHEREO/s/rgb_left/2.png''"
  "join root_dir [''s'', img_folder, ''4.png''] = ''/mydata/dataset/STHEREO/s/rgb_left/4.png''"
  by (simp_all add: join_def join2_def root_dir_def img_folder_def)

lemma ex_split_colon:
  "split_colon ''q:0'' = [''q'', ''0'']" "split_colon ''s:0'' = [''s'', ''0'']"
  "split_colon ''s:1'' = [''s'', ''1'']" "split_colon ''s:2'' = [''s'', ''2'']"
  "split_colon ''s:4'' = [''s'', ''4'']"
  by simp_all

lemma ex_image_path:
  "image_path ''q:0'' = Inr ''/mydata/dataset/STHEREO/q/rgb_left/0.png''"
  "image_path ''s:0'' = Inr ''/mydata/dataset/STHEREO/s/rgb_left/0.png''"
  "image_path ''s:1'' = Inr ''/mydata/dataset/STHEREO/s/rgb_left/1.png''"
  "image_path ''s:2'' = Inr ''/mydata/dataset/STHEREO/s/rgb_left/2.png''"
  "image_path ''s:4'' = Inr ''/mydata/dataset/STHEREO/s/rgb_left/4.png''"
  unfolding image_path_def ex_split_colon Let_def by (simp_all add: ex_join)





lemma sqrt_hundredth: "sqrt (1 / 100) = 1 / 10"
  by (rule real_sqrt_unique) (simp_all add: power2_eq_square)

lemma upt_3: "[0..<(3::nat)] = [0, 1, 2]"
  by (simp add: upt_rec)

lemma ex_fit:
  "fit [] = Inl ValueError" "fit [[0]] = Inr [[0]]" "fit [[1/20], [2], [5]] = Inr [[1/20], [2], [5]]"
  by (simp_all add: fit_def check_array_def)

lemma ex_radius_neighbors:
  "radius_neighbors [[0]] [[0]] 1 = Inr [[0]]"
  "radius_neighbors [[1/20], [2], [5]] [[0]] (1/10) = Inr [[0]]"
  "radius_neighbors [[1/20], [2], [5]] [[0]] 1 = Inr [[0]]"
  by (simp_all add: radius_neighbors_def check_query_def check_array_def euclidean_1d upt_rec)

lemma ex_scenario_init:
  "QueryDatasetFromJson_init ex_scenario 1000 10 (1/10) None = Inr ex_scenario_ds"
  by (simp add: QueryDatasetFromJson_init_def ex_scenario_def ex_scenario_ds_def ex_fit
      sqrt_hundredth ex_radius_neighbors arange_def setdiff1d_def upt_3)


text \<open>
  The scenario of the specification: the neighbourhood is \<open>{0}\<close>, the potential negatives
  are \<open>[1, 2]\<close>.
\<close>

theorem potential_negatives_complement_witness:
  "QueryDatasetFromJson_init ex_scenario 1000 10 (1/10) None = Inr ex_scenario_ds \<and>
   0 < length (utmQ ex_scenario) \<and>
   numDb ex_scenario = length (utmDb ex_scenario) \<and>
   potential_negatives ex_scenario_ds ! 0 = [1, 2] \<and>
   positiveNeighborhood ex_scenario 0 = {0} \<and>
   set (potential_negatives ex_scenario_ds ! 0) \<inter> positiveNeighborhood ex_scenario 0 = {} \<and>
   set (potential_negatives ex_scenario_ds ! 0) \<union> positiveNeighborhood ex_scenario 0
     = {0..<numDb ex_scenario}"
proof -
  have q: "0 < length (utmQ ex_scenario)" and n: "numDb ex_scenario = length (utmDb ex_scenario)"
    by (simp_all add: ex_scenario_def)
  have pn: "potential_negatives ex_scenario_ds ! 0 = [1, 2]" by (simp add: ex_scenario_ds_def)
  have nb: "positiveNeighborhood ex_scenario 0 = {0}"
    by (simp add: positiveNeighborhood_def ex_scenario_def euclidean_1d upt_3)
  from potential_negatives_complement [OF ex_scenario_init q] n
  show ?thesis using ex_scenario_init q pn nb by blast
qed





lemma ex_whole_init: "WholeDatasetFromJson_init ex_scenario False = Inr ex_whole"
  by (simp add: WholeDatasetFromJson_init_def ex_scenario_def ex_whole_def ex_image_path)

lemma ex_radius_neighbors_dist:
  "radius_neighbors_dist [[1/20], [2], [5]] [[0]] 1 = Inr ([[1/20]], [[0]])"
  by (simp add: radius_neighbors_dist_def ex_radius_neighbors euclidean_1d)

lemma ex_getPositives: "getPositives ex_whole = Inr ([[0]], ex_whole_done, 1)"
  by (simp add: getPositives_def ex_whole_def ex_whole_done_def ex_scenario_def ex_fit
      ex_radius_neighbors_dist)

text \<open>
  The evaluation dataset of the scenario: the first call searches once, the second not at all.
\<close>

theorem getPositives_memoised_witness:
  "WholeDatasetFromJson_init ex_scenario False = Inr ex_whole \<and>
   getPositives ex_whole = Inr ([[0]], ex_whole_done, 1) \<and>
   getPositives ex_whole_done = Inr ([[0]], ex_whole_done, 0) \<and>
   positives ex_whole_done = Some [[0]]"
  using getPositives_memoised [OF ex_getPositives] ex_whole_init ex_getPositives by simp




end
